theory Spec2Isabelle
  imports Main "HOL-Library.Multiset"
begin

section \<open>Data model (internal/models/todo.go, migrations/init.sql)\<close>

text \<open>
  Timestamps are instants on a linear scale, at the resolution the table stores them.
  Two clocks appear in the code: the database's \<open>NOW()\<close> and the application's
  \<open>time.Now()\<close>. Both are inputs of the operations below; nothing relates them.
\<close>

type_synonym time = int

text \<open>The Go struct \<open>models.Todo\<close>; \<open>CompletedAt\<close> is a pointer, \<open>None\<close> is nil.\<close>

record Todo =
  ID :: int
  Title :: string
  Description :: string
  Completed :: bool
  CreatedAt :: time
  UpdatedAt :: time
  CompletedAt :: "time option"

record CreateTodoRequest =
  c_Title :: string
  c_Description :: string

text \<open>Every field of \<open>models.UpdateTodoRequest\<close> is a pointer: \<open>None\<close> is "not provided".\<close>

record UpdateTodoRequest =
  u_Title :: "string option"
  u_Description :: "string option"
  u_Completed :: "bool option"

text \<open>
  A row of the table \<open>todos\<close>. The columns \<open>description\<close>, \<open>completed\<close> and
  \<open>completed_at\<close> are nullable in the schema; \<open>title\<close>, \<open>created_at\<close> and
  \<open>updated_at\<close> are NOT NULL.
\<close>

record row =
  r_id :: int
  r_title :: string
  r_description :: "string option"
  r_completed :: "bool option"
  r_created_at :: time
  r_updated_at :: time
  r_completed_at :: "time option"

text \<open>The table with the sequence behind its SERIAL primary key.\<close>

record database =
  todos :: "row list"
  todos_id_seq :: int

datatype error =
    ErrNoRows
  | ScanError
  | UniqueViolation
  | DriverError string

text \<open>A Go slice: \<open>None\<close> is the nil slice, which is not the same value as an empty one.\<close>

type_synonym 'a slice = "'a list option"

definition append_slice :: "'a slice \<Rightarrow> 'a \<Rightarrow> 'a slice" where
  "append_slice s x = (case s of None \<Rightarrow> Some [x] | Some xs \<Rightarrow> Some (xs @ [x]))"

section \<open>The SQL statements of the repository\<close>

text \<open>
  \<open>INSERT INTO todos (title, description, created_at, updated_at)
  VALUES ($1, $2, NOW(), NOW()) RETURNING ...\<close>:
  the id is drawn from the sequence (which advances even when the statement fails),
  the primary key rejects an id already in the table, \<open>completed\<close> takes its column
  default FALSE and \<open>completed_at\<close> stays NULL.
\<close>

definition sql_insert :: "time \<Rightarrow> string \<Rightarrow> string \<Rightarrow> database \<Rightarrow> database \<times> (error + row)" where
  "sql_insert now title description d =
     (let i = todos_id_seq d;
          d1 = d\<lparr>todos_id_seq := i + 1\<rparr>
      in if i \<in> set (map r_id (todos d)) then (d1, Inl UniqueViolation)
         else
           (let r = \<lparr>r_id = i, r_title = title, r_description = Some description,
                     r_completed = Some False, r_created_at = now, r_updated_at = now,
                     r_completed_at = None\<rparr>
            in (d1\<lparr>todos := todos d @ [r]\<rparr>, Inr r)))"

text \<open>
  \<open>SELECT ... FROM todos ORDER BY created_at DESC\<close>. SQL leaves the order of rows with
  equal \<open>created_at\<close> open; the model keeps their table order.
\<close>

definition sql_select_all :: "database \<Rightarrow> row list" where
  "sql_select_all d = sort_key (\<lambda>r. - r_created_at r) (todos d)"

text \<open>\<open>SELECT ... FROM todos WHERE id = $1\<close>\<close>

definition sql_select_by_id :: "int \<Rightarrow> database \<Rightarrow> row list" where
  "sql_select_by_id i d = filter (\<lambda>r. r_id r = i) (todos d)"

text \<open>
  \<open>UPDATE todos SET title = $1, description = $2, completed = $3, completed_at = $4,
  updated_at = NOW() WHERE id = $5 RETURNING ...\<close>
\<close>

definition sql_update ::
  "time \<Rightarrow> string \<Rightarrow> string \<Rightarrow> bool \<Rightarrow> time option \<Rightarrow> int \<Rightarrow> database \<Rightarrow> database \<times> row list" where
  "sql_update now title description completed completed_at i d =
     (let d' = d\<lparr>todos :=
                  map (\<lambda>r. if r_id r = i
                            then r\<lparr>r_title := title, r_description := Some description,
                                   r_completed := Some completed, r_completed_at := completed_at,
                                   r_updated_at := now\<rparr>
                            else r) (todos d)\<rparr>
      in (d', filter (\<lambda>r. r_id r = i) (todos d')))"

text \<open>\<open>DELETE FROM todos WHERE id = $1\<close>\<close>

definition sql_delete :: "int \<Rightarrow> database \<Rightarrow> database" where
  "sql_delete i d = d\<lparr>todos := filter (\<lambda>r. r_id r \<noteq> i) (todos d)\<rparr>"

section \<open>The repository (internal/repository/todo\_repository.go)\<close>

text \<open>
  \<open>Scan\<close> into the fields of a \<open>Todo\<close>: a NULL cannot be converted to a Go
  \<open>string\<close> or \<open>bool\<close>; \<open>completed_at\<close> goes through \<open>sql.NullTime\<close> and
  becomes the pointer.
\<close>

definition Scan :: "row \<Rightarrow> error + Todo" where
  "Scan r =
     (case r_description r of
        None \<Rightarrow> Inl ScanError
      | Some description \<Rightarrow>
          (case r_completed r of
             None \<Rightarrow> Inl ScanError
           | Some completed \<Rightarrow>
               Inr \<lparr>ID = r_id r, Title = r_title r, Description = description,
                    Completed = completed, CreatedAt = r_created_at r,
                    UpdatedAt = r_updated_at r, CompletedAt = r_completed_at r\<rparr>))"

text \<open>\<open>QueryRow(...).Scan(...)\<close>: the first row of the result, \<open>sql.ErrNoRows\<close> if none.\<close>

definition QueryRow_Scan :: "row list \<Rightarrow> error + Todo" where
  "QueryRow_Scan rs = (case rs of [] \<Rightarrow> Inl ErrNoRows | r # _ \<Rightarrow> Scan r)"

text \<open>
  Every round trip to the database takes a \<open>fault\<close>: \<open>Some msg\<close> when the driver
  reports an error that the table's contents do not decide (a lost connection, a value
  the column type rejects), in which case the statement has no effect.
\<close>

definition Create ::
  "string option \<Rightarrow> time \<Rightarrow> database \<Rightarrow> CreateTodoRequest \<Rightarrow> database \<times> (error + Todo)" where
  "Create fault now d todo =
     (case fault of
        Some msg \<Rightarrow> (d, Inl (DriverError msg))
      | None \<Rightarrow>
          (case sql_insert now (c_Title todo) (c_Description todo) d of
             (d', Inl err) \<Rightarrow> (d', Inl err)
           | (d', Inr r) \<Rightarrow> (d', Scan r)))"

text \<open>The loop of \<open>GetAll\<close> over the result rows, starting from the nil slice.\<close>

fun scan_rows :: "Todo slice \<Rightarrow> row list \<Rightarrow> error + Todo slice" where
  "scan_rows acc [] = Inr acc"
| "scan_rows acc (r # rs) =
     (case Scan r of
        Inl err \<Rightarrow> Inl err
      | Inr todo \<Rightarrow> scan_rows (append_slice acc todo) rs)"

text \<open>
  \<open>rows_err\<close> is what \<open>rows.Err()\<close> reports: \<open>Some (n, msg)\<close> when the iteration
  broke off after delivering \<open>n\<close> rows.
\<close>

definition GetAll ::
  "string option \<Rightarrow> (nat \<times> string) option \<Rightarrow> database \<Rightarrow> error + Todo slice" where
  "GetAll fault rows_err d =
     (case fault of
        Some msg \<Rightarrow> Inl (DriverError msg)
      | None \<Rightarrow>
          (case rows_err of
             None \<Rightarrow> scan_rows None (sql_select_all d)
           | Some (n, msg) \<Rightarrow>
               (case scan_rows None (take n (sql_select_all d)) of
                  Inl err \<Rightarrow> Inl err
                | Inr _ \<Rightarrow> Inl (DriverError msg))))"

text \<open>\<open>GetByID\<close> returns \<open>nil, nil\<close> when there is no such row: \<open>Inr None\<close>.\<close>

definition GetByID :: "string option \<Rightarrow> database \<Rightarrow> int \<Rightarrow> error + Todo option" where
  "GetByID fault d i =
     (case fault of
        Some msg \<Rightarrow> Inl (DriverError msg)
      | None \<Rightarrow>
          (case QueryRow_Scan (sql_select_by_id i d) of
             Inl err \<Rightarrow> (if err = ErrNoRows then Inr None else Inl err)
           | Inr todo \<Rightarrow> Inr (Some todo)))"

text \<open>
  \<open>Update\<close>: \<open>fault1\<close> belongs to the read, \<open>fault2\<close> to the write; \<open>app_now\<close> is
  the application's \<open>time.Now()\<close>, \<open>db_now\<close> the database's \<open>NOW()\<close>.
\<close>

definition Update ::
  "string option \<Rightarrow> time \<Rightarrow> string option \<Rightarrow> time \<Rightarrow> database \<Rightarrow> int \<Rightarrow> UpdateTodoRequest
     \<Rightarrow> database \<times> (error + Todo option)" where
  "Update fault1 app_now fault2 db_now d i todo =
     (case GetByID fault1 d i of
        Inl err \<Rightarrow> (d, Inl err)
      | Inr None \<Rightarrow> (d, Inr None)
      | Inr (Some currentTodo) \<Rightarrow>
          (let title = (case u_Title todo of Some t \<Rightarrow> t | None \<Rightarrow> Title currentTodo);
               description =
                 (case u_Description todo of Some t \<Rightarrow> t | None \<Rightarrow> Description currentTodo);
               (completed, completedAt) =
                 (case u_Completed todo of
                    None \<Rightarrow> (Completed currentTodo, CompletedAt currentTodo)
                  | Some c \<Rightarrow>
                      if c \<noteq> Completed currentTodo
                      then (c, if c then Some app_now else None)
                      else (Completed currentTodo, CompletedAt currentTodo))
           in (case fault2 of
                 Some msg \<Rightarrow> (d, Inl (DriverError msg))
               | None \<Rightarrow>
                   (case sql_update db_now title description completed completedAt i d of
                      (d', returned) \<Rightarrow>
                        (case QueryRow_Scan returned of
                           Inl err \<Rightarrow> (d', Inl err)
                         | Inr updatedTodo \<Rightarrow> (d', Inr (Some updatedTodo)))))))"

text \<open>\<open>Delete\<close> returns the error of \<open>Exec\<close>, \<open>None\<close> for nil.\<close>

definition Delete :: "string option \<Rightarrow> database \<Rightarrow> int \<Rightarrow> database \<times> error option" where
  "Delete fault d i =
     (case fault of
        Some msg \<Rightarrow> (d, Some (DriverError msg))
      | None \<Rightarrow> (sql_delete i d, None))"

section \<open>Reachable tables\<close>

text \<open>
  The table after \<open>migrations/init.sql\<close> has run at time \<open>t0\<close> on a fresh database:
  the three sample rows, and the sequence past them.
\<close>

definition init_sql :: "time \<Rightarrow> database" where
  "init_sql t0 =
     \<lparr>todos =
        [\<lparr>r_id = 1, r_title = ''Learn Go'',
          r_description = Some ''Study Go programming language basics'',
          r_completed = Some True, r_created_at = t0, r_updated_at = t0,
          r_completed_at = Some t0\<rparr>,
         \<lparr>r_id = 2, r_title = ''Build a REST API'',
          r_description = Some ''Create a Todo API using Go and PostgreSQL'',
          r_completed = Some False, r_created_at = t0, r_updated_at = t0,
          r_completed_at = None\<rparr>,
         \<lparr>r_id = 3, r_title = ''Learn Docker'',
          r_description = Some ''Learn how to containerize applications'',
          r_completed = Some False, r_created_at = t0, r_updated_at = t0,
          r_completed_at = None\<rparr>],
      todos_id_seq = 4\<rparr>"

text \<open>
  The tables the repository can produce: it starts from the bare table or from the
  migration's, and every later state is the result of a \<open>Create\<close>, an \<open>Update\<close> or a
  \<open>Delete\<close>, whatever their inputs and outcome.
\<close>

inductive reachable :: "database \<Rightarrow> bool" where
  bare: "reachable \<lparr>todos = [], todos_id_seq = 1\<rparr>"
| migrated: "reachable (init_sql t0)"
| create: "reachable d \<Longrightarrow> reachable (fst (Create fault now d req))"
| update: "reachable d \<Longrightarrow> reachable (fst (Update fault1 app_now fault2 db_now d i req))"
| delete: "reachable d \<Longrightarrow> reachable (fst (Delete fault d i))"

section \<open>The handlers (internal/handlers/todo\_handler.go)\<close>

text \<open>What \<open>encoding/json\<close> writes, as a value; a timestamp stays a leaf.\<close>

datatype json =
    JNull
  | JBool bool
  | JNumber int
  | JString string
  | JTime time
  | JArray "json list"
  | JObject "(string \<times> json) list"

text \<open>The struct tags of \<open>models.Todo\<close>: \<open>completed_at\<close> is \<open>omitempty\<close>.\<close>

definition todo_json :: "Todo \<Rightarrow> json" where
  "todo_json t =
     JObject
       ([(''id'', JNumber (ID t)), (''title'', JString (Title t)),
         (''description'', JString (Description t)), (''completed'', JBool (Completed t)),
         (''created_at'', JTime (CreatedAt t)), (''updated_at'', JTime (UpdatedAt t))]
        @ (case CompletedAt t of None \<Rightarrow> [] | Some c \<Rightarrow> [(''completed_at'', JTime c)]))"

text \<open>A slice is encoded as an array, except the nil slice, which is encoded as \<open>null\<close>.\<close>

definition todos_json :: "Todo slice \<Rightarrow> json" where
  "todos_json s = (case s of None \<Rightarrow> JNull | Some ts \<Rightarrow> JArray (map todo_json ts))"

text \<open>
  A response: \<open>Plain\<close> is the text of \<open>http.Error\<close>, \<open>ErrorText err\<close> the text
  \<open>err.Error()\<close>, \<open>Location\<close> the target of a redirect.
\<close>

datatype payload =
    Plain string
  | ErrorText error
  | JSON json
  | Location string
  | NoContent

record response =
  status :: nat
  payload :: payload

definition respondWithJSON :: "nat \<Rightarrow> json \<Rightarrow> response" where
  "respondWithJSON st data = \<lparr>status = st, payload = JSON data\<rparr>"

definition http_Error :: "payload \<Rightarrow> nat \<Rightarrow> response" where
  "http_Error msg st = \<lparr>status = st, payload = msg\<rparr>"

subsection \<open>strconv.ParseInt(s, 10, 64)\<close>

datatype NumError = ErrSyntax | ErrRange

definition is_digit :: "char \<Rightarrow> bool" where
  "is_digit c = (c \<in> set ''0123456789'')"

definition digit_val :: "char \<Rightarrow> nat" where
  "digit_val c = of_char c - 48"

text \<open>
  The loop of \<open>ParseUint\<close> for base 10 and 64 bits, character by character:
  a character that is no digit is a syntax error, a value that leaves \<open>uint64\<close> a range
  error, whichever comes first.
\<close>

fun parse_uint :: "nat \<Rightarrow> string \<Rightarrow> NumError + nat" where
  "parse_uint n [] = Inr n"
| "parse_uint n (c # cs) =
     (if \<not> is_digit c then Inl ErrSyntax
      else if n \<ge> (2 ^ 64 - 1) div 10 + 1 then Inl ErrRange
      else if n * 10 + digit_val c > 2 ^ 64 - 1 then Inl ErrRange
      else parse_uint (n * 10 + digit_val c) cs)"

definition ParseUint :: "string \<Rightarrow> NumError + nat" where
  "ParseUint s = (if s = [] then Inl ErrSyntax else parse_uint 0 s)"

definition ParseInt :: "string \<Rightarrow> NumError + int" where
  "ParseInt s =
     (if s = [] then Inl ErrSyntax
      else
        (let neg = (hd s = CHR ''-'');
             s1 = (if hd s = CHR ''+'' \<or> hd s = CHR ''-'' then tl s else s)
         in case ParseUint s1 of
              Inl ErrSyntax \<Rightarrow> Inl ErrSyntax
            | r \<Rightarrow>
                (let un = (case r of Inr n \<Rightarrow> n | Inl _ \<Rightarrow> 2 ^ 64 - 1)
                 in if \<not> neg \<and> un \<ge> 2 ^ 63 then Inl ErrRange
                    else if neg \<and> un > 2 ^ 63 then Inl ErrRange
                    else Inr (if neg then - int un else int un))))"

subsection \<open>The five handlers\<close>

text \<open>
  Each handler takes what the request and the world give it: the path variable \<open>id\<close>
  as the router extracted it, the outcome of decoding the body into the payload struct
  (\<open>None\<close> when \<open>Decode\<close> fails), the faults of its round trips and the two clocks.
\<close>

definition GetAllTodos :: "string option \<Rightarrow> (nat \<times> string) option \<Rightarrow> database \<Rightarrow> response" where
  "GetAllTodos fault rows_err d =
     (case GetAll fault rows_err d of
        Inl err \<Rightarrow> http_Error (ErrorText err) 500
      | Inr ts \<Rightarrow> respondWithJSON 200 (todos_json ts))"

definition GetTodo :: "string \<Rightarrow> string option \<Rightarrow> database \<Rightarrow> response" where
  "GetTodo var_id fault d =
     (case ParseInt var_id of
        Inl _ \<Rightarrow> http_Error (Plain ''Invalid todo ID'') 400
      | Inr i \<Rightarrow>
          (case GetByID fault d i of
             Inl err \<Rightarrow> http_Error (ErrorText err) 500
           | Inr None \<Rightarrow> http_Error (Plain ''Todo not found'') 404
           | Inr (Some todo) \<Rightarrow> respondWithJSON 200 (todo_json todo)))"

definition CreateTodo ::
  "CreateTodoRequest option \<Rightarrow> string option \<Rightarrow> time \<Rightarrow> database \<Rightarrow> database \<times> response" where
  "CreateTodo decoded fault now d =
     (case decoded of
        None \<Rightarrow> (d, http_Error (Plain ''Invalid request payload'') 400)
      | Some req \<Rightarrow>
          if c_Title req = [] then (d, http_Error (Plain ''Title is required'') 400)
          else
            (case Create fault now d req of
               (d', Inl err) \<Rightarrow> (d', http_Error (ErrorText err) 500)
             | (d', Inr todo) \<Rightarrow> (d', respondWithJSON 201 (todo_json todo))))"

definition UpdateTodo ::
  "string \<Rightarrow> UpdateTodoRequest option \<Rightarrow> string option \<Rightarrow> time \<Rightarrow> string option \<Rightarrow> time
     \<Rightarrow> database \<Rightarrow> database \<times> response" where
  "UpdateTodo var_id decoded fault1 app_now fault2 db_now d =
     (case ParseInt var_id of
        Inl _ \<Rightarrow> (d, http_Error (Plain ''Invalid todo ID'') 400)
      | Inr i \<Rightarrow>
          (case decoded of
             None \<Rightarrow> (d, http_Error (Plain ''Invalid request payload'') 400)
           | Some req \<Rightarrow>
               (case Update fault1 app_now fault2 db_now d i req of
                  (d', Inl err) \<Rightarrow> (d', http_Error (ErrorText err) 500)
                | (d', Inr None) \<Rightarrow> (d', http_Error (Plain ''Todo not found'') 404)
                | (d', Inr (Some todo)) \<Rightarrow> (d', respondWithJSON 200 (todo_json todo)))))"

definition DeleteTodo :: "string \<Rightarrow> string option \<Rightarrow> database \<Rightarrow> database \<times> response" where
  "DeleteTodo var_id fault d =
     (case ParseInt var_id of
        Inl _ \<Rightarrow> (d, http_Error (Plain ''Invalid todo ID'') 400)
      | Inr i \<Rightarrow>
          (case Delete fault d i of
             (d', Some err) \<Rightarrow> (d', http_Error (ErrorText err) 500)
           | (d', None) \<Rightarrow> (d', \<lparr>status = 204, payload = NoContent\<rparr>)))"

section \<open>The router (internal/router/router.go)\<close>

text \<open>
  \<open>SetupRouter\<close> registers five routes on a gorilla/mux subrouter under \<open>/api/v1\<close>.
  What follows is mux's dispatch for such a table: a path that is not in canonical form
  is answered with a redirect to its canonical form; a route matches when the whole path
  matches its template and the method is the route's; the first matching route wins; if
  none matches, the answer is 405 when some template matched the path and 404 otherwise.
\<close>

fun split_slash :: "string \<Rightarrow> string list" where
  "split_slash [] = [[]]"
| "split_slash (c # cs) =
     (if c = CHR ''/'' then [] # split_slash cs
      else (case split_slash cs of [] \<Rightarrow> [[c]] | e # es \<Rightarrow> (c # e) # es))"

text \<open>\<open>path.Clean\<close> on a rooted path, element by element; \<open>acc\<close> is the stack, top first.\<close>

fun clean_elems :: "string list \<Rightarrow> string list \<Rightarrow> string list" where
  "clean_elems acc [] = rev acc"
| "clean_elems acc (e # es) =
     (if e = [] \<or> e = ''.'' then clean_elems acc es
      else if e = ''..'' then clean_elems (tl acc) es
      else clean_elems (e # acc) es)"

definition path_Clean :: "string \<Rightarrow> string" where
  "path_Clean p =
     (let es = clean_elems [] (split_slash p)
      in if es = [] then ''/'' else concat (map (\<lambda>e. CHR ''/'' # e) es))"

definition cleanPath :: "string \<Rightarrow> string" where
  "cleanPath p =
     (if p = [] then ''/''
      else
        (let p1 = (if hd p \<noteq> CHR ''/'' then CHR ''/'' # p else p);
             np = path_Clean p1
         in if last p1 = CHR ''/'' \<and> np \<noteq> ''/'' then np @ ''/'' else np))"

fun strip_prefix :: "string \<Rightarrow> string \<Rightarrow> string option" where
  "strip_prefix [] s = Some s"
| "strip_prefix (p # ps) [] = None"
| "strip_prefix (p # ps) (c # cs) = (if p = c then strip_prefix ps cs else None)"

datatype handler = H_GetAllTodos | H_GetTodo | H_CreateTodo | H_UpdateTodo | H_DeleteTodo

text \<open>
  The two templates, under the subrouter's prefix: \<open>/api/v1/todos\<close> and
  \<open>/api/v1/todos/{id:[0-9]+}\<close>. A match yields the variable \<open>id\<close> (empty for the
  first template).
\<close>

datatype template = Todos | TodosId

definition match_template :: "template \<Rightarrow> string \<Rightarrow> string option" where
  "match_template t p =
     (case strip_prefix ''/api/v1/todos'' p of
        None \<Rightarrow> None
      | Some rest \<Rightarrow>
          (case t of
             Todos \<Rightarrow> (if rest = [] then Some [] else None)
           | TodosId \<Rightarrow>
               (case rest of
                  [] \<Rightarrow> None
                | c # seg \<Rightarrow>
                    if c = CHR ''/'' \<and> seg \<noteq> [] \<and> list_all is_digit seg then Some seg
                    else None)))"

definition routes :: "(template \<times> handler \<times> string) list" where
  "routes =
     [(Todos, H_GetAllTodos, ''GET''),
      (TodosId, H_GetTodo, ''GET''),
      (Todos, H_CreateTodo, ''POST''),
      (TodosId, H_UpdateTodo, ''PUT''),
      (TodosId, H_DeleteTodo, ''DELETE'')]"

datatype route_match = NotFound | MethodMismatch | Matched handler string

fun match_routes :: "(template \<times> handler \<times> string) list \<Rightarrow> bool \<Rightarrow> string \<Rightarrow> string \<Rightarrow> route_match" where
  "match_routes [] mismatch m p = (if mismatch then MethodMismatch else NotFound)"
| "match_routes ((t, h, rm) # rs) mismatch m p =
     (case match_template t p of
        None \<Rightarrow> match_routes rs mismatch m p
      | Some var_id \<Rightarrow> if m = rm then Matched h var_id else match_routes rs True m p)"

text \<open>
  A request, with the decoding of its body into either payload struct, and what the
  world contributes while it is served.
\<close>

record request =
  rq_method :: string
  rq_path :: string
  rq_body_create :: "CreateTodoRequest option"
  rq_body_update :: "UpdateTodoRequest option"

record world =
  w_fault1 :: "string option"
  w_fault2 :: "string option"
  w_rows_err :: "(nat \<times> string) option"
  w_db_now :: time
  w_app_now :: time

definition serve :: "world \<Rightarrow> database \<Rightarrow> request \<Rightarrow> database \<times> response" where
  "serve w d rq =
     (if cleanPath (rq_path rq) \<noteq> rq_path rq
      then (d, \<lparr>status = 301, payload = Location (cleanPath (rq_path rq))\<rparr>)
      else
        (case match_routes routes False (rq_method rq) (rq_path rq) of
           NotFound \<Rightarrow> (d, http_Error (Plain ''404 page not found'') 404)
         | MethodMismatch \<Rightarrow> (d, \<lparr>status = 405, payload = NoContent\<rparr>)
         | Matched H_GetAllTodos _ \<Rightarrow> (d, GetAllTodos (w_fault1 w) (w_rows_err w) d)
         | Matched H_GetTodo var_id \<Rightarrow> (d, GetTodo var_id (w_fault1 w) d)
         | Matched H_CreateTodo _ \<Rightarrow> CreateTodo (rq_body_create rq) (w_fault1 w) (w_db_now w) d
         | Matched H_UpdateTodo var_id \<Rightarrow>
             UpdateTodo var_id (rq_body_update rq) (w_fault1 w) (w_app_now w) (w_fault2 w) (w_db_now w) d
         | Matched H_DeleteTodo var_id \<Rightarrow> DeleteTodo var_id (w_fault1 w) d))"

section \<open>The update algorithm as the specification words it\<close>

text \<open>
  Steps (b) to (d) of the specified algorithm, on the current task: title and description
  take the provided value when present; \<open>completed\<close>, when provided and different from
  the current value, is flipped, and \<open>completed_at\<close> is then set to now (turning true) or
  to absent (turning false); otherwise both stay; \<open>updated_at\<close> is refreshed.
\<close>

definition spec_completed :: "UpdateTodoRequest \<Rightarrow> Todo \<Rightarrow> bool" where
  "spec_completed req cur =
     (case u_Completed req of
        None \<Rightarrow> Completed cur
      | Some c \<Rightarrow> if c \<noteq> Completed cur then \<not> Completed cur else Completed cur)"

definition spec_completed_at :: "time \<Rightarrow> UpdateTodoRequest \<Rightarrow> Todo \<Rightarrow> time option" where
  "spec_completed_at now req cur =
     (case u_Completed req of
        None \<Rightarrow> CompletedAt cur
      | Some c \<Rightarrow>
          if c \<noteq> Completed cur then (if Completed cur then None else Some now)
          else CompletedAt cur)"

definition spec_Update :: "time \<Rightarrow> time \<Rightarrow> UpdateTodoRequest \<Rightarrow> Todo \<Rightarrow> Todo" where
  "spec_Update now refreshed req cur =
     \<lparr>ID = ID cur,
      Title = (case u_Title req of Some t \<Rightarrow> t | None \<Rightarrow> Title cur),
      Description = (case u_Description req of Some t \<Rightarrow> t | None \<Rightarrow> Description cur),
      Completed = spec_completed req cur,
      CreatedAt = CreatedAt cur,
      UpdatedAt = refreshed,
      CompletedAt = spec_completed_at now req cur\<rparr>"

text \<open>The number a string of decimal digits denotes, without any bound.\<close>

definition decimal :: "string \<Rightarrow> nat" where
  "decimal s = foldl (\<lambda>n c. n * 10 + digit_val c) 0 s"

section \<open>Example values\<close>

text \<open>A world in which no round trip fails.\<close>

definition quiet :: world where
  "quiet = \<lparr>w_fault1 = None, w_fault2 = None, w_rows_err = None, w_db_now = 6, w_app_now = 5\<rparr>"

definition get_request :: "string \<Rightarrow> request" where
  "get_request p =
     \<lparr>rq_method = ''GET'', rq_path = p, rq_body_create = None, rq_body_update = None\<rparr>"

definition empty_table :: database where
  "empty_table = \<lparr>todos = [], todos_id_seq = 1\<rparr>"

definition groceries :: CreateTodoRequest where
  "groceries = \<lparr>c_Title = ''Buy groceries'', c_Description = ''Milk, eggs''\<rparr>"

definition nothing_provided :: UpdateTodoRequest where
  "nothing_provided = \<lparr>u_Title = None, u_Description = None, u_Completed = None\<rparr>"

definition set_completed :: "bool \<Rightarrow> UpdateTodoRequest" where
  "set_completed c = \<lparr>u_Title = None, u_Description = None, u_Completed = Some c\<rparr>"

text \<open>The second sample row of the migration, as \<open>GetByID\<close> returns it.\<close>

definition rest_api_task :: "time \<Rightarrow> Todo" where
  "rest_api_task t0 =
     \<lparr>ID = 2, Title = ''Build a REST API'',
      Description = ''Create a Todo API using Go and PostgreSQL'', Completed = False,
      CreatedAt = t0, UpdatedAt = t0, CompletedAt = None\<rparr>"

section \<open>Properties of the repository\<close>

lemma Scan_row:
  "Scan \<lparr>r_id = i, r_title = t, r_description = Some ds, r_completed = Some c,
          r_created_at = a, r_updated_at = b, r_completed_at = ca\<rparr>
   = Inr \<lparr>ID = i, Title = t, Description = ds, Completed = c, CreatedAt = a, UpdatedAt = b,
          CompletedAt = ca\<rparr>"
  by (simp add: Scan_def)

lemma Scan_Inr:
  "Scan r = Inr t \<longleftrightarrow>
     r_description r = Some (Description t) \<and> r_completed r = Some (Completed t) \<and>
     ID t = r_id r \<and> Title t = r_title r \<and> CreatedAt t = r_created_at r \<and>
     UpdatedAt t = r_updated_at r \<and> CompletedAt t = r_completed_at r"
  by (cases t) (auto simp: Scan_def split: option.splits)

lemma filter_id_empty:
  "filter (\<lambda>r. r_id r = i) rs = [] \<longleftrightarrow> i \<notin> set (map r_id rs)"
  by (induction rs) auto

lemma filter_id_map:
  assumes "\<And>r. r_id (f r) = r_id r"
  shows "filter (\<lambda>r. r_id r = i) (map f rs) = map f (filter (\<lambda>r. r_id r = i) rs)"
  by (induction rs) (simp_all add: assms)

lemma Create_success:
  "Create fault now d req = (d', Inr t) \<longleftrightarrow>
     fault = None \<and> todos_id_seq d \<notin> set (map r_id (todos d)) \<and>
     t = \<lparr>ID = todos_id_seq d, Title = c_Title req, Description = c_Description req,
          Completed = False, CreatedAt = now, UpdatedAt = now, CompletedAt = None\<rparr> \<and>
     d' = \<lparr>todos = todos d @ [\<lparr>r_id = todos_id_seq d, r_title = c_Title req,
             r_description = Some (c_Description req), r_completed = Some False,
             r_created_at = now, r_updated_at = now, r_completed_at = None\<rparr>],
           todos_id_seq = todos_id_seq d + 1\<rparr>"
  by (cases fault) (auto simp: Create_def sql_insert_def Let_def Scan_row)

lemma GetByID_Some:
  "GetByID fault d i = Inr (Some cur) \<longleftrightarrow>
     fault = None \<and> (\<exists>r rs. filter (\<lambda>r. r_id r = i) (todos d) = r # rs \<and> Scan r = Inr cur)"
  by (cases fault)
     (auto simp: GetByID_def sql_select_by_id_def QueryRow_Scan_def Scan_def
           split: list.splits sum.splits option.splits)

lemma GetByID_None:
  "GetByID fault d i = Inr None \<longleftrightarrow> fault = None \<and> i \<notin> set (map r_id (todos d))"
proof (cases "filter (\<lambda>r. r_id r = i) (todos d)")
  case Nil
  then show ?thesis
    using filter_id_empty [of i "todos d"]
    by (cases fault) (simp_all add: GetByID_def sql_select_by_id_def QueryRow_Scan_def)
next
  case (Cons r rs)
  then have "i \<in> set (map r_id (todos d))"
    using filter_id_empty [of i "todos d"] by simp
  with Cons show ?thesis
    by (cases fault)
       (auto simp: GetByID_def sql_select_by_id_def QueryRow_Scan_def Scan_def
             split: option.splits)
qed

lemma sql_update_returned:
  "snd (sql_update now t ds c ca i d) =
     map (\<lambda>r. r\<lparr>r_title := t, r_description := Some ds, r_completed := Some c,
                r_completed_at := ca, r_updated_at := now\<rparr>)
         (filter (\<lambda>r. r_id r = i) (todos d))"
proof -
  let ?f = "\<lambda>r. if r_id r = i
                then r\<lparr>r_title := t, r_description := Some ds, r_completed := Some c,
                       r_completed_at := ca, r_updated_at := now\<rparr>
                else r"
  have "filter (\<lambda>r. r_id r = i) (map ?f (todos d)) = map ?f (filter (\<lambda>r. r_id r = i) (todos d))"
    by (rule filter_id_map) simp
  also have "\<dots> = map (\<lambda>r. r\<lparr>r_title := t, r_description := Some ds, r_completed := Some c,
                r_completed_at := ca, r_updated_at := now\<rparr>) (filter (\<lambda>r. r_id r = i) (todos d))"
    by (rule map_cong) simp_all
  finally show ?thesis by (simp add: sql_update_def Let_def)
qed

lemma sql_update_select:
  "sql_select_by_id i (fst (sql_update now t ds c ca i d)) = snd (sql_update now t ds c ca i d)"
  by (simp add: sql_update_def sql_select_by_id_def Let_def)

lemma QueryRow_Scan_returned:
  assumes "filter (\<lambda>r. r_id r = i) (todos d) = r # rs" and "Scan r = Inr cur"
  shows "QueryRow_Scan (snd (sql_update now t ds c ca i d)) =
      Inr \<lparr>ID = ID cur, Title = t, Description = ds, Completed = c,
           CreatedAt = CreatedAt cur, UpdatedAt = now, CompletedAt = ca\<rparr>"
proof -
  from assms(2) have "r_id r = ID cur" "r_created_at r = CreatedAt cur"
    by (simp_all add: Scan_Inr)
  with assms(1) show ?thesis
    by (simp add: sql_update_returned QueryRow_Scan_def Scan_def)
qed

text \<open>The write of \<open>Update\<close> on a task that was found, with both round trips succeeding.\<close>

lemma Update_found:
  assumes cur: "GetByID None d i = Inr (Some cur)"
  shows "Update None app_now None db_now d i req =
           (fst (sql_update db_now (Title (spec_Update app_now db_now req cur))
                   (Description (spec_Update app_now db_now req cur))
                   (Completed (spec_Update app_now db_now req cur))
                   (CompletedAt (spec_Update app_now db_now req cur)) i d),
            Inr (Some (spec_Update app_now db_now req cur)))"
proof -
  from cur obtain r rs where f: "filter (\<lambda>r. r_id r = i) (todos d) = r # rs"
    and s: "Scan r = Inr cur"
    by (auto simp: GetByID_Some)
  note ret = QueryRow_Scan_returned [OF f s]
  show ?thesis
    unfolding Update_def cur
    by (cases "u_Title req"; cases "u_Description req"; cases "u_Completed req";
        cases "Completed cur")
       (simp_all add: Let_def case_prod_beta ret spec_Update_def spec_completed_def
          spec_completed_at_def)
qed

lemma GetByID_after_sql_update:
  assumes "GetByID None d i = Inr (Some cur)"
  shows "GetByID None (fst (sql_update now t ds c ca i d)) i =
      Inr (Some \<lparr>ID = ID cur, Title = t, Description = ds, Completed = c,
           CreatedAt = CreatedAt cur, UpdatedAt = now, CompletedAt = ca\<rparr>)"
proof -
  from assms obtain r rs where f: "filter (\<lambda>r. r_id r = i) (todos d) = r # rs"
    and s: "Scan r = Inr cur"
    by (auto simp: GetByID_Some)
  show ?thesis
    by (simp add: GetByID_def sql_update_select QueryRow_Scan_returned [OF f s])
qed

text \<open>
  C3. \<open>Create\<close> stores a new row and returns it as a task that is not completed, has no
  completion time, has equal creation and update times (the statement's \<open>NOW()\<close>), and
  carries the id drawn from the sequence with the request's title and description. It
  does return one whenever the round trip succeeds and the id is free. The repository does
  not look at the title: what holds for every request holds for those with a non-empty one.
\<close>

theorem Create_returns_fresh_task:
  "(\<forall>d' t. Create fault now d req = (d', Inr t) \<longrightarrow>
      Completed t = False \<and> CompletedAt t = None \<and> CreatedAt t = UpdatedAt t \<and>
      ID t = todos_id_seq d \<and> Title t = c_Title req \<and> Description t = c_Description req \<and>
      CreatedAt t = now) \<and>
   (c_Title req \<noteq> [] \<and> fault = None \<and> todos_id_seq d \<notin> set (map r_id (todos d)) \<longrightarrow>
      (\<exists>d' t. Create fault now d req = (d', Inr t)))"
  by (simp add: Create_success)

theorem Create_returns_fresh_task_witness:
  "\<exists>d' t. Create None 7 empty_table groceries = (d', Inr t) \<and>
      Completed t = False \<and> CompletedAt t = None \<and> CreatedAt t = UpdatedAt t \<and> ID t = 1"
proof -
  have "c_Title groceries \<noteq> [] \<and> (None :: string option) = None \<and>
        todos_id_seq empty_table \<notin> set (map r_id (todos empty_table))"
    by (simp add: groceries_def empty_table_def)
  with Create_returns_fresh_task [of None 7 empty_table groceries]
  show ?thesis by (fastforce simp: empty_table_def)
qed

text \<open>
  C8. Round trip: when \<open>Create\<close> returns a task, \<open>GetByID\<close> on the returned id, asked
  of the table \<open>Create\<close> left behind, returns that very task.
\<close>

theorem Create_then_GetByID:
  assumes "Create fault now d req = (d', Inr t)"
  shows "GetByID None d' (ID t) = Inr (Some t)"
proof -
  from assms have fresh: "todos_id_seq d \<notin> set (map r_id (todos d))"
    and t: "t = \<lparr>ID = todos_id_seq d, Title = c_Title req, Description = c_Description req,
          Completed = False, CreatedAt = now, UpdatedAt = now, CompletedAt = None\<rparr>"
    and d': "d' = \<lparr>todos = todos d @ [\<lparr>r_id = todos_id_seq d, r_title = c_Title req,
             r_description = Some (c_Description req), r_completed = Some False,
             r_created_at = now, r_updated_at = now, r_completed_at = None\<rparr>],
           todos_id_seq = todos_id_seq d + 1\<rparr>"
    by (simp_all add: Create_success)
  from fresh have "filter (\<lambda>r. r_id r = todos_id_seq d) (todos d) = []"
    by (simp add: filter_id_empty)
  then show ?thesis
    by (simp add: GetByID_def sql_select_by_id_def QueryRow_Scan_def t d' Scan_row)
qed

theorem Create_then_GetByID_witness:
  "\<exists>d' t. Create None 7 empty_table groceries = (d', Inr t) \<and>
      GetByID None d' (ID t) = Inr (Some t) \<and> Title t = ''Buy groceries''"
proof -
  obtain d' t where c: "Create None 7 empty_table groceries = (d', Inr t)"
    and "Title t = ''Buy groceries''"
    by (simp add: Create_success empty_table_def groceries_def)
  with Create_then_GetByID [OF c] show ?thesis by blast
qed

text \<open>
  C1. \<open>Update\<close> follows the specified algorithm. With no row of that id it reports
  NotFound and leaves the table alone. For a task that \<open>GetByID\<close> finds, and both round
  trips succeeding, it returns the task the specification describes (\<open>spec_Update\<close>:
  title and description replaced when provided; \<open>completed\<close> flipped and \<open>completed_at\<close>
  set to the application's now or cleared when the provided value differs, both kept
  otherwise; \<open>updated_at\<close> set to the statement's \<open>NOW()\<close>), and that task is what the
  table holds afterwards under the id.
\<close>

theorem Update_follows_algorithm:
  "(i \<notin> set (map r_id (todos d)) \<longrightarrow>
      Update None app_now wfault db_now d i req = (d, Inr None)) \<and>
   (GetByID None d i = Inr (Some cur) \<longrightarrow>
      (\<exists>d'. Update None app_now None db_now d i req =
               (d', Inr (Some (spec_Update app_now db_now req cur))) \<and>
            GetByID None d' i = Inr (Some (spec_Update app_now db_now req cur))))"
proof (intro conjI impI)
  assume "i \<notin> set (map r_id (todos d))"
  then have "GetByID None d i = Inr None"
    by (simp add: GetByID_None)
  then show "Update None app_now wfault db_now d i req = (d, Inr None)"
    by (simp add: Update_def)
next
  assume cur: "GetByID None d i = Inr (Some cur)"
  let ?t = "spec_Update app_now db_now req cur"
  have "GetByID None (fst (sql_update db_now (Title ?t) (Description ?t) (Completed ?t)
            (CompletedAt ?t) i d)) i = Inr (Some ?t)"
    by (simp add: GetByID_after_sql_update [OF cur] spec_Update_def)
  with Update_found [OF cur, of app_now db_now req]
  show "\<exists>d'. Update None app_now None db_now d i req = (d', Inr (Some ?t)) \<and>
            GetByID None d' i = Inr (Some ?t)"
    by blast
qed

lemma GetByID_rest_api_task: "GetByID None (init_sql t0) 2 = Inr (Some (rest_api_task t0))"
  by (simp add: GetByID_def sql_select_by_id_def init_sql_def QueryRow_Scan_def Scan_def
        rest_api_task_def)

theorem Update_follows_algorithm_witness:
  "Update None 5 None 6 (init_sql 0) 9 nothing_provided = (init_sql 0, Inr None) \<and>
   (\<exists>d'. Update None 5 None 6 (init_sql 0) 2 (set_completed True) =
            (d', Inr (Some \<lparr>ID = 2, Title = ''Build a REST API'',
                    Description = ''Create a Todo API using Go and PostgreSQL'',
                    Completed = True, CreatedAt = 0, UpdatedAt = 6, CompletedAt = Some 5\<rparr>)))"
proof -
  have absent: "9 \<notin> set (map r_id (todos (init_sql 0)))"
    by (simp add: init_sql_def)
  have spec: "spec_Update 5 6 (set_completed True) (rest_api_task 0) =
     \<lparr>ID = 2, Title = ''Build a REST API'',
      Description = ''Create a Todo API using Go and PostgreSQL'',
      Completed = True, CreatedAt = 0, UpdatedAt = 6, CompletedAt = Some 5\<rparr>"
    by (simp add: spec_Update_def spec_completed_def spec_completed_at_def set_completed_def
          rest_api_task_def)
  from absent
    Update_follows_algorithm [where i = 9 and d = "init_sql 0" and app_now = 5
      and wfault = None and db_now = 6 and req = nothing_provided]
  have "Update None 5 None 6 (init_sql 0) 9 nothing_provided = (init_sql 0, Inr None)"
    by blast
  moreover from GetByID_rest_api_task [of 0]
    Update_follows_algorithm [where i = 2 and d = "init_sql 0" and app_now = 5
      and db_now = 6 and req = "set_completed True" and cur = "rest_api_task 0"]
  have "\<exists>d'. Update None 5 None 6 (init_sql 0) 2 (set_completed True) =
            (d', Inr (Some (spec_Update 5 6 (set_completed True) (rest_api_task 0))))"
    by blast
  ultimately show ?thesis by (simp only: spec)
qed

lemma spec_Update_nothing:
  "spec_Update a b \<lparr>u_Title = None, u_Description = None, u_Completed = None\<rparr> cur
     = cur\<lparr>UpdatedAt := b\<rparr>"
  by (cases cur) (simp add: spec_Update_def spec_completed_def spec_completed_at_def)

text \<open>
  C9. An update that provides no field, on a task that exists, with a well-formed id and
  both round trips succeeding, is answered 200 with the task as it was except for
  \<open>updated_at\<close>, which is the statement's \<open>NOW()\<close>; the row under that id is rewritten to
  that task.
\<close>

theorem UpdateTodo_empty_payload:
  assumes "ParseInt var_id = Inr i" and "GetByID None d i = Inr (Some cur)"
  shows "\<exists>d'. UpdateTodo var_id (Some \<lparr>u_Title = None, u_Description = None, u_Completed = None\<rparr>)
                 None app_now None db_now d
               = (d', \<lparr>status = 200, payload = JSON (todo_json (cur\<lparr>UpdatedAt := db_now\<rparr>))\<rparr>) \<and>
              GetByID None d' i = Inr (Some (cur\<lparr>UpdatedAt := db_now\<rparr>))"
proof -
  let ?req = "\<lparr>u_Title = None, u_Description = None, u_Completed = None\<rparr>"
  let ?t = "cur\<lparr>UpdatedAt := db_now\<rparr>"
  let ?d' = "fst (sql_update db_now (Title ?t) (Description ?t) (Completed ?t) (CompletedAt ?t) i d)"
  have upd: "Update None app_now None db_now d i ?req = (?d', Inr (Some ?t))"
    using Update_found [OF assms(2), of app_now db_now ?req]
    by (simp only: spec_Update_nothing)
  have "GetByID None ?d' i = Inr (Some ?t)"
    by (cases cur) (simp add: GetByID_after_sql_update [OF assms(2)])
  moreover have "UpdateTodo var_id (Some ?req) None app_now None db_now d
       = (?d', \<lparr>status = 200, payload = JSON (todo_json ?t)\<rparr>)"
    by (simp add: UpdateTodo_def assms(1) upd respondWithJSON_def)
  ultimately show ?thesis by blast
qed

lemma ParseInt_2: "ParseInt ''2'' = Inr 2"
  by (simp add: ParseInt_def ParseUint_def is_digit_def digit_val_def)

theorem UpdateTodo_empty_payload_witness:
  "\<exists>d'. UpdateTodo ''2'' (Some \<lparr>u_Title = None, u_Description = None, u_Completed = None\<rparr>)
            None 5 None 6 (init_sql 0)
          = (d', \<lparr>status = 200, payload = JSON (todo_json ((rest_api_task 0)\<lparr>UpdatedAt := 6\<rparr>))\<rparr>) \<and>
         GetByID None d' 2 = Inr (Some ((rest_api_task 0)\<lparr>UpdatedAt := 6\<rparr>))"
  using UpdateTodo_empty_payload [OF ParseInt_2 GetByID_rest_api_task [of 0], of 5 6]
  by simp

text \<open>
  C4, with the two clocks told apart. Toggling \<open>completed\<close> from false to true sets
  \<open>completed_at\<close> to the application's clock reading taken during the update, so it is
  never absent, and it is no earlier than the prior \<open>updated_at\<close> exactly when that
  reading is; toggling from true to false clears it.
\<close>

theorem Update_toggle_sets_completed_at:
  assumes "GetByID None d i = Inr (Some cur)"
      and "u_Completed req = Some c" and "c \<noteq> Completed cur"
  shows "\<exists>d' t. Update None app_now None db_now d i req = (d', Inr (Some t)) \<and>
           Completed t = c \<and>
           (c \<longrightarrow> CompletedAt t = Some app_now \<and>
                  (\<exists>ts. CompletedAt t = Some ts \<and> (UpdatedAt cur \<le> ts) = (UpdatedAt cur \<le> app_now))) \<and>
           (\<not> c \<longrightarrow> CompletedAt t = None)"
  using Update_found [OF assms(1), of app_now db_now req] assms(2,3)
  by (auto simp: spec_Update_def spec_completed_def spec_completed_at_def)

theorem Update_toggle_sets_completed_at_witness:
  "\<exists>d' t. Update None 5 None 6 (init_sql 0) 2 (set_completed True) = (d', Inr (Some t)) \<and>
           Completed t = True \<and> CompletedAt t = Some 5"
proof -
  have "u_Completed (set_completed True) = Some True"
    and "True \<noteq> Completed (rest_api_task 0)"
    by (simp_all add: set_completed_def rest_api_task_def)
  from Update_toggle_sets_completed_at [OF GetByID_rest_api_task [of 0] this, of 5 6]
  show ?thesis by auto
qed

text \<open>
  With the application's clock behind the database's, the completion time that a toggle to
  true stores is earlier than the \<open>updated_at\<close> the task had before.
\<close>

theorem completed_at_before_prior_updated_at:
  "GetByID None (init_sql 10) 2 = Inr (Some (rest_api_task 10)) \<and>
   \<not> Completed (rest_api_task 10) \<and>
   snd (Update None 5 None 11 (init_sql 10) 2 (set_completed True)) =
     Inr (Some ((rest_api_task 10)\<lparr>Completed := True, UpdatedAt := 11, CompletedAt := Some 5\<rparr>)) \<and>
   \<not> UpdatedAt (rest_api_task 10) \<le> 5"
  by (simp add: Update_def GetByID_def sql_select_by_id_def init_sql_def QueryRow_Scan_def
        Scan_def rest_api_task_def set_completed_def sql_update_def Let_def)

text \<open>
  C7. \<open>Delete\<close> succeeds exactly when its round trip does, whether or not a row of that
  id exists; the handler then answers 204; and \<open>GetByID\<close> on the table it leaves reports
  NotFound for that id.
\<close>

theorem Delete_succeeds_unless_fault:
  "(snd (Delete fault d i) = None) = (fault = None) \<and>
   (fault = None \<longrightarrow> GetByID None (fst (Delete fault d i)) i = Inr None) \<and>
   (fault = None \<and> ParseInt var_id = Inr i \<longrightarrow>
      snd (DeleteTodo var_id fault d) = \<lparr>status = 204, payload = NoContent\<rparr> \<and>
      GetByID None (fst (DeleteTodo var_id fault d)) i = Inr None)"
proof -
  have gone: "GetByID None (sql_delete i d) i = Inr None"
    by (auto simp: GetByID_None sql_delete_def)
  show ?thesis
    by (cases fault) (simp_all add: Delete_def DeleteTodo_def gone)
qed

lemma ParseInt_9: "ParseInt ''9'' = Inr 9"
  by (simp add: ParseInt_def ParseUint_def is_digit_def digit_val_def)

theorem Delete_succeeds_unless_fault_witness:
  "snd (Delete None (init_sql 0) 9) = None \<and>
   snd (DeleteTodo ''9'' None (init_sql 0)) = \<lparr>status = 204, payload = NoContent\<rparr> \<and>
   GetByID None (fst (DeleteTodo ''9'' None (init_sql 0))) 9 = Inr None \<and>
   9 \<notin> set (map r_id (todos (init_sql 0)))"
  using Delete_succeeds_unless_fault [of None "init_sql 0" 9 "''9''"] ParseInt_9
  by (simp add: init_sql_def)

section \<open>The completion invariant\<close>

lemma Create_todos:
  "todos (fst (Create fault now d req)) = todos d \<or>
   todos (fst (Create fault now d req)) =
     todos d @ [\<lparr>r_id = todos_id_seq d, r_title = c_Title req,
                 r_description = Some (c_Description req), r_completed = Some False,
                 r_created_at = now, r_updated_at = now, r_completed_at = None\<rparr>]"
  by (cases fault) (simp_all add: Create_def sql_insert_def Let_def)

lemma Update_faults:
  assumes "Update f1 a f2 b d i req = (d', Inr (Some t))"
  shows "f1 = None \<and> f2 = None"
proof -
  have "f1 = None"
    using assms by (cases f1) (simp_all add: Update_def GetByID_def)
  moreover have "f2 = None"
    using assms
    by (cases f2)
       (auto simp: Update_def Let_def case_prod_beta split: sum.splits option.splits)
  ultimately show ?thesis ..
qed

lemma Update_table:
  "fst (Update f1 a f2 b d i req) = d \<or>
   (\<exists>cur. GetByID None d i = Inr (Some cur) \<and> f1 = None \<and> f2 = None)"
proof (cases "GetByID f1 d i")
  case (Inl e)
  then show ?thesis by (simp add: Update_def)
next
  case (Inr o1)
  show ?thesis
  proof (cases o1)
    case None
    with Inr show ?thesis by (simp add: Update_def)
  next
    case (Some cur)
    with Inr have f1: "f1 = None" by (simp add: GetByID_Some)
    show ?thesis
    proof (cases f2)
      case None
      with Inr Some f1 show ?thesis by simp
    next
      case (Some msg)
      with Inr \<open>o1 = Some cur\<close> show ?thesis
        by (simp add: Update_def Let_def case_prod_beta)
    qed
  qed
qed

lemma spec_Update_completion:
  assumes "(CompletedAt cur \<noteq> None) = Completed cur"
  shows "(CompletedAt (spec_Update a b req cur) \<noteq> None) = Completed (spec_Update a b req cur)"
  using assms
  by (cases "u_Completed req")
     (auto simp: spec_Update_def spec_completed_def spec_completed_at_def)

lemma found_row_completion:
  assumes "\<forall>r\<in>set (todos d). (r_completed_at r \<noteq> None) = (r_completed r = Some True)"
      and "GetByID f d i = Inr (Some t)"
  shows "(CompletedAt t \<noteq> None) = Completed t"
proof -
  from assms(2) obtain r rs where f: "filter (\<lambda>r. r_id r = i) (todos d) = r # rs"
    and s: "Scan r = Inr t"
    by (auto simp: GetByID_Some)
  from f have "r \<in> set (filter (\<lambda>r. r_id r = i) (todos d))" by simp
  then have "r \<in> set (todos d)" by simp
  with assms(1) have "(r_completed_at r \<noteq> None) = (r_completed r = Some True)" by blast
  with s show ?thesis by (auto simp: Scan_Inr)
qed

lemma Update_keeps_completion:
  assumes inv: "\<forall>r\<in>set (todos d). (r_completed_at r \<noteq> None) = (r_completed r = Some True)"
  shows "\<forall>r\<in>set (todos (fst (Update f1 a f2 b d i req))).
           (r_completed_at r \<noteq> None) = (r_completed r = Some True)"
proof -
  from Update_table [of f1 a f2 b d i req]
  consider "fst (Update f1 a f2 b d i req) = d"
    | cur where "GetByID None d i = Inr (Some cur)" "f1 = None" "f2 = None"
    by blast
  then show ?thesis
  proof cases
    case 1
    with inv show ?thesis by simp
  next
    case 2
    let ?t = "spec_Update a b req cur"
    from found_row_completion [OF inv 2(1)] have "(CompletedAt ?t \<noteq> None) = Completed ?t"
      by (rule spec_Update_completion)
    with inv show ?thesis
      unfolding 2(2,3) Update_found [OF 2(1)]
      by (auto simp: sql_update_def Let_def)
  qed
qed

lemma reachable_completion:
  "reachable d \<Longrightarrow>
     \<forall>r\<in>set (todos d). (r_completed_at r \<noteq> None) = (r_completed r = Some True)"
proof (induction rule: reachable.induct)
  case bare
  show ?case by simp
next
  case (migrated t0)
  show ?case by (simp add: init_sql_def)
next
  case (create d fault now req)
  with Create_todos [of fault now d req] show ?case by auto
next
  case (update d f1 a f2 b i req)
  from update.IH show ?case by (rule Update_keeps_completion)
next
  case (delete d fault i)
  then show ?case by (cases fault) (simp_all add: Delete_def sql_delete_def)
qed

text \<open>
  C2. In every table reachable through the repository, a row has a completion time if and
  only if it is completed, and so has every task read from it. An \<open>Update\<close> of a task
  there returns a task with the same property; its completion time is the application's
  now when \<open>completed\<close> went from false to true, absent when it went from true to false,
  and the previous one whenever \<open>completed\<close> did not change, whatever else the request
  changes.
\<close>

theorem completion_invariant:
  assumes "reachable d"
  shows "(\<forall>r\<in>set (todos d). (r_completed_at r \<noteq> None) = (r_completed r = Some True)) \<and>
         (\<forall>f i t. GetByID f d i = Inr (Some t) \<longrightarrow> (CompletedAt t \<noteq> None) = Completed t) \<and>
         (\<forall>f1 a f2 b i req cur d' t.
            GetByID None d i = Inr (Some cur) \<and> Update f1 a f2 b d i req = (d', Inr (Some t)) \<longrightarrow>
              (CompletedAt t \<noteq> None) = Completed t \<and>
              (\<not> Completed cur \<and> Completed t \<longrightarrow> CompletedAt t = Some a) \<and>
              (Completed cur \<and> \<not> Completed t \<longrightarrow> CompletedAt t = None) \<and>
              (Completed t = Completed cur \<longrightarrow> CompletedAt t = CompletedAt cur))"
proof (intro conjI allI impI)
  show inv: "\<forall>r\<in>set (todos d). (r_completed_at r \<noteq> None) = (r_completed r = Some True)"
    using assms by (rule reachable_completion)
  {
    fix f i t
    assume "GetByID f d i = Inr (Some t)"
    with inv show "(CompletedAt t \<noteq> None) = Completed t"
      by (rule found_row_completion)
  }
  note found = this
  {
    fix f1 a f2 b i req cur d' t
    assume h: "GetByID None d i = Inr (Some cur) \<and> Update f1 a f2 b d i req = (d', Inr (Some t))"
    then have cur: "GetByID None d i = Inr (Some cur)"
      and upd: "Update f1 a f2 b d i req = (d', Inr (Some t))"
      by simp_all
    from Update_faults [OF upd] upd Update_found [OF cur, of a b req]
    have t: "t = spec_Update a b req cur" by simp
    note c = found [OF cur]
    show "(CompletedAt t \<noteq> None) = Completed t"
      unfolding t using c by (rule spec_Update_completion)
    show "CompletedAt t = Some a" if "\<not> Completed cur \<and> Completed t"
      using that unfolding t
      by (cases "u_Completed req")
         (auto simp: spec_Update_def spec_completed_def spec_completed_at_def split: if_splits)
    show "CompletedAt t = None" if "Completed cur \<and> \<not> Completed t"
      using that unfolding t
      by (cases "u_Completed req")
         (auto simp: spec_Update_def spec_completed_def spec_completed_at_def split: if_splits)
    show "CompletedAt t = CompletedAt cur" if "Completed t = Completed cur"
      using that unfolding t
      by (cases "u_Completed req")
         (auto simp: spec_Update_def spec_completed_def spec_completed_at_def split: if_splits)
  }
qed

theorem completion_invariant_witness:
  "reachable (fst (Update None 5 None 6 (init_sql 0) 2 (set_completed True))) \<and>
   list_all (\<lambda>r. (r_completed_at r \<noteq> None) = (r_completed r = Some True))
     (todos (fst (Update None 5 None 6 (init_sql 0) 2 (set_completed True)))) \<and>
   map r_completed_at (todos (fst (Update None 5 None 6 (init_sql 0) 2 (set_completed True))))
     = [Some 0, Some 5, None]"
proof -
  have r: "reachable (fst (Update None 5 None 6 (init_sql 0) 2 (set_completed True)))"
    by (rule reachable.update) (rule reachable.migrated)
  have "map r_completed_at (todos (fst (Update None 5 None 6 (init_sql 0) 2 (set_completed True))))
     = [Some 0, Some 5, None]"
    unfolding Update_found [OF GetByID_rest_api_task]
    by (simp add: sql_update_def Let_def init_sql_def spec_Update_def spec_completed_def
          spec_completed_at_def set_completed_def rest_api_task_def)
  moreover from completion_invariant [OF r]
  have "list_all (\<lambda>r. (r_completed_at r \<noteq> None) = (r_completed r = Some True))
     (todos (fst (Update None 5 None 6 (init_sql 0) 2 (set_completed True))))"
    by (simp add: list_all_iff)
  ultimately show ?thesis using r by blast
qed

section \<open>Parsing the id\<close>

lemma accumulate_ge: "n \<le> foldl (\<lambda>n c. n * 10 + digit_val c) n s"
proof (induction s arbitrary: n)
  case Nil
  show ?case by simp
next
  case (Cons c cs)
  have "n \<le> n * 10 + digit_val c" by simp
  also have "\<dots> \<le> foldl (\<lambda>n c. n * 10 + digit_val c) (n * 10 + digit_val c) cs"
    by (rule Cons.IH)
  finally show ?case by simp
qed

lemma parse_uint_digits:
  "list_all is_digit s \<Longrightarrow> n < 2 ^ 64 \<Longrightarrow>
     parse_uint n s =
       (if foldl (\<lambda>n c. n * 10 + digit_val c) n s < 2 ^ 64
        then Inr (foldl (\<lambda>n c. n * 10 + digit_val c) n s) else Inl ErrRange)"
proof (induction s arbitrary: n)
  case Nil
  then show ?case by simp
next
  case (Cons c cs)
  let ?n' = "n * 10 + digit_val c"
  from Cons.prems(1) have c: "is_digit c" and cs: "list_all is_digit cs" by simp_all
  have ge: "?n' \<le> foldl (\<lambda>n c. n * 10 + digit_val c) ?n' cs"
    by (rule accumulate_ge)
  show ?case
  proof (cases "n \<ge> (2 ^ 64 - 1) div 10 + 1 \<or> ?n' > 2 ^ 64 - 1")
    case True
    then have "?n' \<ge> 2 ^ 64" by auto
    with ge have "\<not> foldl (\<lambda>n c. n * 10 + digit_val c) ?n' cs < 2 ^ 64" by linarith
    with True c show ?thesis by auto
  next
    case False
    then have "?n' < 2 ^ 64" by auto
    from False c Cons.IH [OF cs this] show ?thesis by auto
  qed
qed

lemma digit_is_no_sign: "is_digit c \<Longrightarrow> c \<noteq> CHR ''+'' \<and> c \<noteq> CHR ''-''"
  by (auto simp: is_digit_def)

lemma ParseInt_digits:
  assumes "v \<noteq> []" and "list_all is_digit v"
  shows "ParseInt v = (if decimal v < 2 ^ 63 then Inr (int (decimal v)) else Inl ErrRange)"
proof -
  from assms obtain c cs where v: "v = c # cs" and c: "is_digit c"
    by (cases v) simp_all
  from digit_is_no_sign [OF c] have sign: "hd v \<noteq> CHR ''+''" "hd v \<noteq> CHR ''-''"
    by (simp_all add: v)
  have u: "ParseUint v = (if decimal v < 2 ^ 64 then Inr (decimal v) else Inl ErrRange)"
    using assms(1) parse_uint_digits [OF assms(2), of 0]
    by (simp add: ParseUint_def decimal_def)
  show ?thesis
  proof (cases "decimal v < 2 ^ 64")
    case True
    with u assms(1) sign show ?thesis
      by (simp add: ParseInt_def Let_def)
  next
    case False
    with u assms(1) sign show ?thesis
      by (simp add: ParseInt_def Let_def)
  qed
qed

section \<open>Routing\<close>

lemma strip_prefix_append: "strip_prefix xs (xs @ ys) = Some ys"
  by (induction xs) simp_all

lemma strip_prefix_Some: "strip_prefix xs p = Some r \<Longrightarrow> p = xs @ r"
  by (induction xs p rule: strip_prefix.induct) (simp_all split: if_splits)

lemma strip_prefix_iff: "strip_prefix xs p = Some r \<longleftrightarrow> p = xs @ r"
  using strip_prefix_Some strip_prefix_append by blast

lemma match_template_Todos:
  "match_template Todos p = Some v \<longleftrightarrow> v = [] \<and> p = ''/api/v1/todos''"
proof (cases "strip_prefix ''/api/v1/todos'' p")
  case None
  then have "p \<noteq> ''/api/v1/todos''"
    using strip_prefix_append [of "''/api/v1/todos''" "[]"] by auto
  with None show ?thesis by (simp add: match_template_def)
next
  case (Some rest)
  then have "p = ''/api/v1/todos'' @ rest" by (rule strip_prefix_Some)
  with Some show ?thesis by (auto simp: match_template_def)
qed

lemma match_template_TodosId:
  "match_template TodosId p = Some v \<longleftrightarrow>
     v \<noteq> [] \<and> list_all is_digit v \<and> p = ''/api/v1/todos/'' @ v"
proof (cases "strip_prefix ''/api/v1/todos'' p")
  case None
  have "strip_prefix ''/api/v1/todos'' (''/api/v1/todos'' @ (CHR ''/'' # v)) = Some (CHR ''/'' # v)"
    by (rule strip_prefix_append)
  with None have "p \<noteq> ''/api/v1/todos/'' @ v" by auto
  with None show ?thesis by (simp add: match_template_def)
next
  case (Some rest)
  then have "p = ''/api/v1/todos'' @ rest" by (rule strip_prefix_Some)
  with Some show ?thesis by (cases rest) (auto simp: match_template_def)
qed

lemma match_template_exclusive:
  "match_template Todos p = Some v \<Longrightarrow> match_template TodosId p = None"
proof -
  assume "match_template Todos p = Some v"
  then have p: "p = ''/api/v1/todos''" by (simp add: match_template_Todos)
  show ?thesis
  proof (cases "match_template TodosId p")
    case None
    then show ?thesis .
  next
    case (Some w)
    then have "p = ''/api/v1/todos/'' @ w" by (simp add: match_template_TodosId)
    with p show ?thesis by simp
  qed
qed

text \<open>A route with a handler that reads the id matched the second template.\<close>

lemma match_routes_id:
  assumes "match_routes routes False m p = Matched h v"
      and "h = H_GetTodo \<or> h = H_UpdateTodo \<or> h = H_DeleteTodo"
  shows "match_template TodosId p = Some v"
proof (cases "match_template Todos p")
  case None
  with assms show ?thesis
    by (cases "match_template TodosId p") (auto simp: routes_def split: if_splits)
next
  case (Some w)
  from match_template_exclusive [OF Some] Some assms show ?thesis
    by (auto simp: routes_def split: if_splits)
qed

lemma match_routes_no_template:
  assumes "match_template Todos p = None" and "match_template TodosId p = None"
  shows "match_routes routes False m p = NotFound"
  using assms by (simp add: routes_def)

lemma GetTodo_invalid_id:
  "payload (GetTodo v f d) = Plain ''Invalid todo ID'' \<Longrightarrow>
     (\<exists>e. ParseInt v = Inl e) \<and> status (GetTodo v f d) = 400"
  by (auto simp: GetTodo_def http_Error_def respondWithJSON_def split: sum.splits option.splits)

lemma UpdateTodo_invalid_id:
  "payload (snd (UpdateTodo v b f1 a f2 n d)) = Plain ''Invalid todo ID'' \<Longrightarrow>
     (\<exists>e. ParseInt v = Inl e) \<and> status (snd (UpdateTodo v b f1 a f2 n d)) = 400"
  by (auto simp: UpdateTodo_def http_Error_def respondWithJSON_def
           split: sum.splits option.splits prod.splits)

lemma DeleteTodo_invalid_id:
  "payload (snd (DeleteTodo v f d)) = Plain ''Invalid todo ID'' \<Longrightarrow>
     (\<exists>e. ParseInt v = Inl e) \<and> status (snd (DeleteTodo v f d)) = 400"
  by (auto simp: DeleteTodo_def http_Error_def split: sum.splits option.splits prod.splits)

lemma GetAllTodos_not_invalid_id:
  "payload (GetAllTodos f re d) \<noteq> Plain ''Invalid todo ID''"
  by (auto simp: GetAllTodos_def http_Error_def respondWithJSON_def split: sum.splits)

lemma CreateTodo_not_invalid_id:
  "payload (snd (CreateTodo b f n d)) \<noteq> Plain ''Invalid todo ID''"
  by (auto simp: CreateTodo_def http_Error_def respondWithJSON_def
           split: sum.splits option.splits prod.splits)

text \<open>The only way to the text "Invalid todo ID": a handler that reads the id fails to parse it.\<close>

lemma serve_invalid_id:
  assumes "payload (snd (serve w d rq)) = Plain ''Invalid todo ID''"
  shows "\<exists>h v. match_routes routes False (rq_method rq) (rq_path rq) = Matched h v \<and>
           (h = H_GetTodo \<or> h = H_UpdateTodo \<or> h = H_DeleteTodo) \<and>
           (\<exists>e. ParseInt v = Inl e) \<and> status (snd (serve w d rq)) = 400"
proof (cases "cleanPath (rq_path rq) = rq_path rq")
  case False
  with assms show ?thesis by (simp add: serve_def)
next
  case True
  show ?thesis
  proof (cases "match_routes routes False (rq_method rq) (rq_path rq)")
    case NotFound
    with True assms show ?thesis by (simp add: serve_def http_Error_def)
  next
    case MethodMismatch
    with True assms show ?thesis by (simp add: serve_def)
  next
    case (Matched h v)
    show ?thesis
    proof (cases h)
      case H_GetAllTodos
      with Matched True assms GetAllTodos_not_invalid_id show ?thesis
        by (simp add: serve_def)
    next
      case H_GetTodo
      with Matched True assms have "payload (GetTodo v (w_fault1 w) d) = Plain ''Invalid todo ID''"
        by (simp add: serve_def)
      from GetTodo_invalid_id [OF this] Matched True H_GetTodo show ?thesis
        by (simp add: serve_def)
    next
      case H_CreateTodo
      with Matched True assms CreateTodo_not_invalid_id show ?thesis
        by (simp add: serve_def)
    next
      case H_UpdateTodo
      with Matched True assms
      have "payload (snd (UpdateTodo v (rq_body_update rq) (w_fault1 w) (w_app_now w)
               (w_fault2 w) (w_db_now w) d)) = Plain ''Invalid todo ID''"
        by (simp add: serve_def)
      from UpdateTodo_invalid_id [OF this] Matched True H_UpdateTodo show ?thesis
        by (simp add: serve_def)
    next
      case H_DeleteTodo
      with Matched True assms
      have "payload (snd (DeleteTodo v (w_fault1 w) d)) = Plain ''Invalid todo ID''"
        by (simp add: serve_def)
      from DeleteTodo_invalid_id [OF this] Matched True H_DeleteTodo show ?thesis
        by (simp add: serve_def)
    qed
  qed
qed

text \<open>
  C10. A handler that reads the id is only reached through the template with the
  digit-only segment: the variable it gets is a non-empty string of decimal digits, so a
  parsed id is never negative, and \<open>ParseInt\<close> fails on it exactly when its value exceeds
  the largest signed 64-bit integer. Hence a response with the text "Invalid todo ID" has
  status 400 and comes from a path whose id segment is such an overflowing string of
  digits.
\<close>

theorem id_variable_is_digits_only:
  "(match_routes routes False m p = Matched h v \<and>
      (h = H_GetTodo \<or> h = H_UpdateTodo \<or> h = H_DeleteTodo) \<longrightarrow>
        v \<noteq> [] \<and> list_all is_digit v \<and> p = ''/api/v1/todos/'' @ v \<and>
        (\<forall>i. ParseInt v = Inr i \<longrightarrow> 0 \<le> i) \<and>
        ((\<exists>e. ParseInt v = Inl e) \<longleftrightarrow> 2 ^ 63 \<le> decimal v)) \<and>
   (payload (snd (serve w d rq)) = Plain ''Invalid todo ID'' \<longrightarrow>
      status (snd (serve w d rq)) = 400 \<and>
      (\<exists>v. rq_path rq = ''/api/v1/todos/'' @ v \<and> v \<noteq> [] \<and> list_all is_digit v \<and>
           2 ^ 63 \<le> decimal v))"
proof -
  have digits: "v \<noteq> [] \<and> list_all is_digit v \<and> p = ''/api/v1/todos/'' @ v \<and>
        (\<forall>i. ParseInt v = Inr i \<longrightarrow> 0 \<le> i) \<and>
        ((\<exists>e. ParseInt v = Inl e) \<longleftrightarrow> 2 ^ 63 \<le> decimal v)"
    if "match_routes routes False m p = Matched h v"
      and "h = H_GetTodo \<or> h = H_UpdateTodo \<or> h = H_DeleteTodo" for m p h v
  proof -
    from match_routes_id [OF that] have v: "v \<noteq> []" "list_all is_digit v"
      and p: "p = ''/api/v1/todos/'' @ v"
      by (simp_all add: match_template_TodosId)
    from ParseInt_digits [OF v] p v show ?thesis by auto
  qed
  have invalid: "status (snd (serve w d rq)) = 400 \<and>
      (\<exists>v. rq_path rq = ''/api/v1/todos/'' @ v \<and> v \<noteq> [] \<and> list_all is_digit v \<and>
           2 ^ 63 \<le> decimal v)"
    if "payload (snd (serve w d rq)) = Plain ''Invalid todo ID''"
  proof -
    from serve_invalid_id [OF that] obtain h v
      where "match_routes routes False (rq_method rq) (rq_path rq) = Matched h v"
        and "h = H_GetTodo \<or> h = H_UpdateTodo \<or> h = H_DeleteTodo"
        and e: "\<exists>e. ParseInt v = Inl e" and st: "status (snd (serve w d rq)) = 400"
      by blast
    from digits [OF this(1,2)] e st show ?thesis by blast
  qed
  from digits invalid show ?thesis by blast
qed

lemma serve_overflowing_id:
  "snd (serve quiet empty_table (get_request ''/api/v1/todos/9223372036854775808'')) =
     \<lparr>status = 400, payload = Plain ''Invalid todo ID''\<rparr>"
  by (simp add: serve_def get_request_def cleanPath_def path_Clean_def routes_def
        match_template_def GetTodo_def ParseInt_def ParseUint_def is_digit_def digit_val_def
        http_Error_def Let_def)

theorem id_variable_is_digits_only_witness:
  "match_routes routes False ''GET'' ''/api/v1/todos/9223372036854775808''
     = Matched H_GetTodo ''9223372036854775808'' \<and>
   list_all is_digit ''9223372036854775808'' \<and>
   (2::nat) ^ 63 \<le> decimal ''9223372036854775808'' \<and>
   payload (snd (serve quiet empty_table (get_request ''/api/v1/todos/9223372036854775808'')))
     = Plain ''Invalid todo ID'' \<and>
   status (snd (serve quiet empty_table (get_request ''/api/v1/todos/9223372036854775808'')))
     = 400"
proof -
  have m: "match_routes routes False ''GET'' ''/api/v1/todos/9223372036854775808''
     = Matched H_GetTodo ''9223372036854775808''"
    by (simp add: routes_def match_template_def is_digit_def)
  have e: "ParseInt ''9223372036854775808'' = Inl ErrRange"
    by (simp add: ParseInt_def ParseUint_def is_digit_def digit_val_def Let_def)
  have pl: "payload (snd (serve quiet empty_table
      (get_request ''/api/v1/todos/9223372036854775808''))) = Plain ''Invalid todo ID''"
    by (simp add: serve_overflowing_id)
  from id_variable_is_digits_only [where m = "''GET''"
      and p = "''/api/v1/todos/9223372036854775808''" and h = H_GetTodo
      and v = "''9223372036854775808''" and w = quiet and d = empty_table
      and rq = "get_request ''/api/v1/todos/9223372036854775808''"] m e pl
  show ?thesis by simp
qed

text \<open>
  C5, with the router in front of the handler. A GET for \<open>/api/v1/todos/seg\<close> whose segment is not a non-empty
  string of decimal digits matches no route: \<open>GetTodo\<close> is not called, and the answer
  is the router's 404 (or its redirect, when the path is not in canonical form), not 400.
\<close>

theorem non_numeric_id_is_not_routed:
  assumes "\<not> (seg \<noteq> [] \<and> list_all is_digit seg)"
  shows "match_routes routes False ''GET'' (''/api/v1/todos/'' @ seg) = NotFound \<and>
         snd (serve w d \<lparr>rq_method = ''GET'', rq_path = ''/api/v1/todos/'' @ seg,
                         rq_body_create = bc, rq_body_update = bu\<rparr>) =
           (if cleanPath (''/api/v1/todos/'' @ seg) = ''/api/v1/todos/'' @ seg
            then \<lparr>status = 404, payload = Plain ''404 page not found''\<rparr>
            else \<lparr>status = 301, payload = Location (cleanPath (''/api/v1/todos/'' @ seg))\<rparr>)"
proof -
  let ?p = "''/api/v1/todos/'' @ seg"
  have "match_template Todos ?p = None"
  proof (cases "match_template Todos ?p")
    case (Some v)
    then have "?p = ''/api/v1/todos''" by (simp add: match_template_Todos)
    then show ?thesis by simp
  qed
  moreover have "match_template TodosId ?p = None"
  proof (cases "match_template TodosId ?p")
    case (Some v)
    then have "v \<noteq> [] \<and> list_all is_digit v \<and> ?p = ''/api/v1/todos/'' @ v"
      by (simp add: match_template_TodosId)
    with assms show ?thesis by simp
  qed
  ultimately have "match_routes routes False ''GET'' ?p = NotFound"
    by (rule match_routes_no_template)
  then show ?thesis by (simp add: serve_def http_Error_def)
qed

theorem non_numeric_id_is_not_routed_witness:
  "\<not> (''-5'' \<noteq> [] \<and> list_all is_digit ''-5'') \<and>
   ParseInt ''-5'' = Inr (- 5) \<and>
   snd (serve quiet empty_table (get_request ''/api/v1/todos/-5'')) =
     \<lparr>status = 404, payload = Plain ''404 page not found''\<rparr>"
proof -
  have seg: "\<not> (''-5'' \<noteq> [] \<and> list_all is_digit ''-5'')"
    by (simp add: is_digit_def)
  have clean: "cleanPath ''/api/v1/todos/-5'' = ''/api/v1/todos/-5''"
    by (simp add: cleanPath_def path_Clean_def)
  have parse: "ParseInt ''-5'' = Inr (- 5)"
    by (simp add: ParseInt_def ParseUint_def is_digit_def digit_val_def Let_def)
  from non_numeric_id_is_not_routed [OF seg, of quiet empty_table None None] clean
  have "snd (serve quiet empty_table (get_request ''/api/v1/todos/-5'')) =
     \<lparr>status = 404, payload = Plain ''404 page not found''\<rparr>"
    by (simp add: get_request_def)
  with seg parse show ?thesis by blast
qed

text \<open>The segment \<open>abc\<close> is answered 404, not 400.\<close>

theorem non_numeric_id_answered_404:
  "\<not> list_all is_digit ''abc'' \<and>
   status (snd (serve quiet empty_table (get_request ''/api/v1/todos/abc''))) = 404 \<and>
   status (snd (serve quiet empty_table (get_request ''/api/v1/todos/abc''))) \<noteq> 400"
  by (simp add: serve_def get_request_def cleanPath_def path_Clean_def routes_def
        match_template_def is_digit_def http_Error_def)

section \<open>Listing\<close>

lemma scan_rows_Inr:
  "scan_rows acc rs = Inr ts \<Longrightarrow>
     \<exists>xs. map Scan rs = map Inr xs \<and>
          ts = (if rs = [] then acc else Some ((case acc of None \<Rightarrow> [] | Some a \<Rightarrow> a) @ xs))"
proof (induction rs arbitrary: acc)
  case Nil
  then show ?case by simp
next
  case (Cons r rs)
  from Cons.prems obtain t where t: "Scan r = Inr t"
    and rest: "scan_rows (append_slice acc t) rs = Inr ts"
    by (auto split: sum.splits)
  from Cons.IH [OF rest] obtain xs where xs: "map Scan rs = map Inr xs"
    and ts: "ts = (if rs = [] then append_slice acc t
                   else Some ((case append_slice acc t of None \<Rightarrow> [] | Some a \<Rightarrow> a) @ xs))"
    by blast
  from xs t have "map Scan (r # rs) = map Inr (t # xs)" by simp
  moreover from ts xs
  have "ts = Some ((case acc of None \<Rightarrow> [] | Some a \<Rightarrow> a) @ t # xs)"
    by (cases acc) (auto simp: append_slice_def)
  ultimately show ?case by (intro exI [of _ "t # xs"]) simp
qed

lemma scanned_columns:
  "map Scan rs = map Inr xs \<Longrightarrow>
     map CreatedAt xs = map r_created_at rs \<and> map ID xs = map r_id rs"
proof (induction rs arbitrary: xs)
  case Nil
  then show ?case by simp
next
  case (Cons r rs)
  then obtain t ts where "xs = t # ts" "Scan r = Inr t" "map Scan rs = map Inr ts"
    by (cases xs) auto
  with Cons.IH [of ts] show ?case by (simp add: Scan_Inr)
qed

text \<open>
  What \<open>GetAll\<close> returns when nothing fails: every row of the table as a task, newest
  first; and the nil slice, not an empty one, when the table has no row.
\<close>

lemma GetAll_newest_first:
  assumes "GetAll None None d = Inr ts"
  shows "(todos d = [] \<longrightarrow> ts = None) \<and>
         (todos d \<noteq> [] \<longrightarrow>
            (\<exists>xs. ts = Some xs \<and> sorted (map (\<lambda>t. - CreatedAt t) xs) \<and>
                  mset (map ID xs) = mset (map r_id (todos d))))"
proof -
  from assms have "scan_rows None (sql_select_all d) = Inr ts"
    by (simp add: GetAll_def)
  from scan_rows_Inr [OF this] obtain xs
    where xs: "map Scan (sql_select_all d) = map Inr xs"
      and ts: "ts = (if sql_select_all d = [] then None else Some xs)"
    by auto
  have empty: "(sql_select_all d = []) = (todos d = [])"
    unfolding sql_select_all_def by (metis length_0_conv length_sort)
  from scanned_columns [OF xs]
  have c: "map CreatedAt xs = map r_created_at (sql_select_all d)"
    and i: "map ID xs = map r_id (sql_select_all d)"
    by simp_all
  have "map (\<lambda>t. - CreatedAt t) xs = map uminus (map CreatedAt xs)" by simp
  also have "\<dots> = map (\<lambda>r. - r_created_at r) (sql_select_all d)" by (simp add: c)
  finally have "sorted (map (\<lambda>t. - CreatedAt t) xs)"
    by (simp add: sql_select_all_def)
  moreover have "mset (map ID xs) = mset (map r_id (todos d))"
    by (simp add: i sql_select_all_def)
  ultimately show ?thesis using ts empty by simp
qed

text \<open>
  C6, at the empty table. \<open>GetAll\<close> appends nothing to its nil slice, and the handler
  encodes the nil slice: the answer is 200 with the body \<open>null\<close>, which is not the empty
  array.
\<close>

theorem GetAllTodos_empty_table_null:
  "GetAll None None empty_table = Inr None \<and>
   serve quiet empty_table (get_request ''/api/v1/todos'') =
     (empty_table, \<lparr>status = 200, payload = JSON JNull\<rparr>) \<and>
   JNull \<noteq> JArray []"
  by (simp add: serve_def get_request_def cleanPath_def path_Clean_def routes_def
        match_template_def GetAllTodos_def GetAll_def sql_select_all_def empty_table_def
        quiet_def todos_json_def respondWithJSON_def)

end
